theory Spec2Isabelle
  imports Complex_Main "HOL-Library.AList"
begin

section \<open>Conventions of the embedding\<close>

text \<open>
  The retrieval pipeline of Vivadoc is embedded function by function. The conventions:
  \<^item> a JavaScript \<^verbatim>\<open>number\<close> that carries a score is a \<^typ>\<open>real\<close>: rounding, overflow and
    \<^verbatim>\<open>NaN\<close> inputs of IEEE doubles are outside the model. The one place where the code can
    produce a non-number from numbers, a division by zero, is written out as a value of
    its own (\<open>weights\<close> below);
  \<^item> a count, a line number, a limit or a clock reading is a \<^typ>\<open>nat\<close>;
  \<^item> a string is a \<^typ>\<open>string\<close> of ASCII characters; the Portuguese literals of the source
    are written without their diacritics and the bullet sign as \<^verbatim>\<open>*\<close>;
  \<^item> a \<^verbatim>\<open>Map\<close> whose iteration order the code relies on is an association list updated
    in place (\<^const>\<open>AList.update\<close> keeps the position of a key that is already present, as
    \<^verbatim>\<open>Map.prototype.set\<close> does); a \<^verbatim>\<open>Map\<close> that is only looked up is a map \<open>'k \<rightharpoonup> 'v\<close>;
  \<^item> \<^verbatim>\<open>Array.prototype.sort\<close> is stable, and so is \<^const>\<open>sort_key\<close>; a comparator
    \<^verbatim>\<open>(a, b) => b.score - a.score\<close> is the key \<open>\<lambda>r. - score r\<close>;
  \<^item> an exception is a value: a call that may throw returns \<open>exn + 'a\<close>.
\<close>

section \<open>Data model (types.ts)\<close>

text \<open>
  \<^verbatim>\<open>Chunk\<close> with the fields the retrieval code reads; \<^verbatim>\<open>metadata.type\<close> and
  \<^verbatim>\<open>metadata.tags\<close> are flattened into the record. Field names carry a prefix because
  several interfaces of the source share the names \<^verbatim>\<open>content\<close>, \<^verbatim>\<open>filePath\<close>,
  \<^verbatim>\<open>startLine\<close>, \<^verbatim>\<open>endLine\<close>.
\<close>

record chunk =
  chunk_id :: string
  chunk_content :: string
  chunk_filePath :: string
  chunk_startLine :: nat
  chunk_endLine :: nat
  chunk_language :: string
  chunk_metadata_type :: string
  chunk_metadata_tags :: "string list"

record citation =
  cit_filePath :: string
  cit_startLine :: nat
  cit_endLine :: nat
  cit_content :: string

record search_result =
  sr_chunk :: chunk
  sr_score :: real
  sr_relevance :: real
  sr_citations :: "citation list"
  sr_rerankingScore :: "real option"
  sr_originalScore :: "real option"

datatype exn = Exn string

section \<open>Hybrid search (search/hybrid-search.ts)\<close>

subsection \<open>tokenize\<close>

definition is_upper :: "char \<Rightarrow> bool" where
  "is_upper c = (let n = (of_char c :: nat) in 65 \<le> n \<and> n \<le> 90)"

definition is_word_char :: "char \<Rightarrow> bool" where
  "is_word_char c =
     (let n = (of_char c :: nat) in
      (48 \<le> n \<and> n \<le> 57) \<or> (65 \<le> n \<and> n \<le> 90) \<or> n = 95 \<or> (97 \<le> n \<and> n \<le> 122))"

definition is_space_char :: "char \<Rightarrow> bool" where
  "is_space_char c = (let n = (of_char c :: nat) in n = 32 \<or> (9 \<le> n \<and> n \<le> 13))"

definition toLowerCase :: "string \<Rightarrow> string" where
  "toLowerCase s = map (\<lambda>c. if is_upper c then char_of (of_char c + (32 :: nat)) else c) s"

text \<open>\<^verbatim>\<open>s.split(/\s+/)\<close>: the pieces between maximal runs of white space, with an empty
  piece before a leading and after a trailing run, and \<^verbatim>\<open>[""]\<close> for the empty string.\<close>

function split_ws :: "string \<Rightarrow> string list" where
  "split_ws [] = [[]]"
| "split_ws (c # cs) =
     (if is_space_char c then [] # split_ws (dropWhile is_space_char cs)
      else (case split_ws cs of [] \<Rightarrow> [[c]] | w # ws \<Rightarrow> (c # w) # ws))"
  by pat_completeness auto
termination
  by (relation "measure length") (auto simp: less_Suc_eq_le length_dropWhile_le)

definition stopWords :: "string list" where
  "stopWords =
     [''the'', ''a'', ''an'', ''and'', ''or'', ''but'', ''in'', ''on'', ''at'', ''to'', ''for'',
      ''of'', ''with'', ''by'', ''is'', ''are'', ''was'', ''were'', ''be'', ''been'', ''being'',
      ''have'', ''has'', ''had'', ''do'', ''does'', ''did'', ''will'', ''would'', ''could'',
      ''should'', ''may'', ''might'', ''can'', ''this'', ''that'', ''these'', ''those'']"

definition isStopWord :: "string \<Rightarrow> bool" where
  "isStopWord term = (term \<in> set stopWords)"

definition tokenize :: "string \<Rightarrow> string list" where
  "tokenize text =
     filter (\<lambda>term. \<not> isStopWord term)
       (filter (\<lambda>term. length term > 2)
          (split_ws
             (map (\<lambda>c. if is_word_char c \<or> is_space_char c then c else CHR '' '')
                (toLowerCase text))))"

subsection \<open>buildBM25Index\<close>

text \<open>\<^verbatim>\<open>m.set(term, (m.get(term) || 0) + 1)\<close> on a counting map.\<close>

definition bump :: "string \<Rightarrow> (string \<rightharpoonup> nat) \<Rightarrow> (string \<rightharpoonup> nat)" where
  "bump term m = m(term \<mapsto> (case m term of None \<Rightarrow> 0 | Some n \<Rightarrow> n) + 1)"

text \<open>First pass: the document frequency of every term. (The pass also fills a corpus-wide
  \<^verbatim>\<open>termFreq\<close> map that nothing reads; it is left out.)\<close>

definition docFreq :: "chunk list \<Rightarrow> (string \<rightharpoonup> nat)" where
  "docFreq chunks =
     fold (\<lambda>chunk df. fold bump (remdups (tokenize (chunk_content chunk))) df) chunks Map.empty"

text \<open>Second pass, for one chunk: the sparse map from each of its terms to \<open>tf \<times> idf\<close>.\<close>

definition chunkIndex :: "chunk list \<Rightarrow> chunk \<Rightarrow> (string \<rightharpoonup> real)" where
  "chunkIndex chunks chunk =
     (let terms = tokenize (chunk_content chunk) in
      fold (\<lambda>term ci.
              let tf = length (filter (\<lambda>t. t = term) terms);
                  df = (case docFreq chunks term of None \<Rightarrow> 0 | Some n \<Rightarrow> n);
                  idf = ln ((real (length chunks) - real df + 0.5) / (real df + 0.5));
                  score = real tf * idf
              in ci(term \<mapsto> score))
           terms Map.empty)"

definition buildBM25Index :: "chunk list \<Rightarrow> (string \<rightharpoonup> (string \<rightharpoonup> real))" where
  "buildBM25Index chunks =
     fold (\<lambda>chunk idx. idx(chunk_id chunk \<mapsto> chunkIndex chunks chunk)) chunks Map.empty"

subsection \<open>bm25Search\<close>

text \<open>The inner loop of \<^verbatim>\<open>bm25Search\<close>: \<^verbatim>\<open>score += chunkIndex.get(term) || 0\<close> over the
  query terms (repeated query terms count again).\<close>

definition sumWeights :: "(string \<rightharpoonup> real) \<Rightarrow> string list \<Rightarrow> real" where
  "sumWeights ci queryTerms =
     fold (\<lambda>term score. score + (case ci term of None \<Rightarrow> 0 | Some w \<Rightarrow> if w = 0 then 0 else w))
          queryTerms 0"

text \<open>The summed score of a chunk of the corpus, as the loop computes it from the index
  that \<^const>\<open>buildBM25Index\<close> stored under the chunk's id.\<close>

definition bm25Score :: "chunk list \<Rightarrow> string list \<Rightarrow> chunk \<Rightarrow> real" where
  "bm25Score chunks queryTerms chunk =
     (case buildBM25Index chunks (chunk_id chunk) of
        None \<Rightarrow> 0
      | Some ci \<Rightarrow> sumWeights ci queryTerms)"

definition bm25Scores :: "chunk list \<Rightarrow> string list \<Rightarrow> (string \<times> real) list" where
  "bm25Scores chunks queryTerms =
     fold (\<lambda>chunk scores.
             case buildBM25Index chunks (chunk_id chunk) of
               None \<Rightarrow> scores
             | Some ci \<Rightarrow>
                 let score = sumWeights ci queryTerms
                 in if score > 0 then AList.update (chunk_id chunk) score scores else scores)
          chunks []"

text \<open>\<^verbatim>\<open>content.substring(0, 200) + "..."\<close>\<close>

definition snippet :: "string \<Rightarrow> string" where
  "snippet s = take 200 s @ ''...''"

definition chunkCitation :: "chunk \<Rightarrow> citation" where
  "chunkCitation c =
     \<lparr>cit_filePath = chunk_filePath c, cit_startLine = chunk_startLine c,
      cit_endLine = chunk_endLine c, cit_content = snippet (chunk_content c)\<rparr>"

definition mkResult :: "chunk \<Rightarrow> real \<Rightarrow> search_result" where
  "mkResult c score =
     \<lparr>sr_chunk = c, sr_score = score, sr_relevance = score, sr_citations = [chunkCitation c],
      sr_rerankingScore = None, sr_originalScore = None\<rparr>"

text \<open>The ids in \<open>scores\<close> are ids of chunks of the corpus, so \<^verbatim>\<open>find\<close> succeeds; the model
  yields no result where it would not.\<close>

definition bm25Search :: "chunk list \<Rightarrow> string list \<Rightarrow> nat \<Rightarrow> search_result list" where
  "bm25Search chunks queryTerms limit =
     concat (map (\<lambda>(chunkId, score).
                    case find (\<lambda>c. chunk_id c = chunkId) chunks of
                      None \<Rightarrow> []
                    | Some c \<Rightarrow> [mkResult c score])
               (take limit (sort_key (\<lambda>(chunkId, score). - score) (bm25Scores chunks queryTerms))))"

subsection \<open>cosineSimilarity\<close>


section \<open>Embedding cache (search/embedding-cache.ts)\<close>

record cache_entry =
  ce_embedding :: "real list"
  ce_hash :: string
  ce_timestamp :: nat
  ce_access_count :: nat
  ce_last_access :: nat

text \<open>The object state. \<open>ec_cache\<close> is the \<^verbatim>\<open>Map\<close> in insertion order; \<^verbatim>\<open>cache.size\<close> is its
  length (the keys of the list are distinct, as those of a \<^verbatim>\<open>Map\<close> are).\<close>

record embedding_cache =
  ec_cache :: "(string \<times> cache_entry) list"
  ec_maxEntries :: nat
  ec_maxAge :: nat
  ec_hits :: nat
  ec_misses :: nat
  ec_isDirty :: bool





definition isExpired :: "nat \<Rightarrow> embedding_cache \<Rightarrow> cache_entry \<Rightarrow> bool" where
  "isExpired now ec entry = (int now - int (ce_timestamp entry) > int (ec_maxAge ec))"

text \<open>\<^verbatim>\<open>get(content)\<close>: the vector or \<^verbatim>\<open>null\<close>, and the cache with its counters and the
  entry's \<^verbatim>\<open>access_count\<close> and \<^verbatim>\<open>last_access\<close> updated.\<close>

definition cache_get ::
  "(string \<Rightarrow> string) \<Rightarrow> nat \<Rightarrow> string \<Rightarrow> embedding_cache \<Rightarrow> real list option \<times> embedding_cache" where
  "cache_get generateKey now content ec =
     (let key = generateKey content in
      case map_of (ec_cache ec) key of
        None \<Rightarrow> (None, ec\<lparr>ec_misses := ec_misses ec + 1\<rparr>)
      | Some entry \<Rightarrow>
          if isExpired now ec entry
          then (None, ec\<lparr>ec_cache := AList.delete key (ec_cache ec), ec_isDirty := True,
                         ec_misses := ec_misses ec + 1\<rparr>)
          else (Some (ce_embedding entry),
                ec\<lparr>ec_cache := AList.update key
                                   (entry\<lparr>ce_access_count := ce_access_count entry + 1,
                                          ce_last_access := now\<rparr>) (ec_cache ec),
                   ec_hits := ec_hits ec + 1, ec_isDirty := True\<rparr>))"

section \<open>Reranker (search/cross-encoder-reranker.ts)\<close>







section \<open>Intent classifier (search/intent-classifier.ts)\<close>

datatype intent_type = Symbol | File | Explanation | Howto | Route | Error | Test

record query_intent =
  qi_type :: intent_type
  qi_confidence :: real
  qi_entities :: "string list"
  qi_keywords :: "string list"

text \<open>A regular expression of one of the six pattern tables is named by its table and its
  position there. The regular-expression engine belongs to the JavaScript runtime and is
  a parameter: \<open>re_test p q\<close> is \<^verbatim>\<open>pattern.test(q)\<close>, \<open>re_match_count p q\<close> the length of
  \<^verbatim>\<open>q.match(new RegExp(pattern.source, "gi"))\<close> (0 for \<^verbatim>\<open>null\<close>), and \<open>re_entities k q\<close> the
  array \<^verbatim>\<open>q.match(entityPatterns[k])\<close> (empty for \<^verbatim>\<open>null\<close>).\<close>

type_synonym pattern = "intent_type \<times> nat"

record regex_engine =
  re_test :: "pattern \<Rightarrow> string \<Rightarrow> bool"
  re_match_count :: "pattern \<Rightarrow> string \<Rightarrow> nat"
  re_entities :: "nat \<Rightarrow> string \<Rightarrow> string list"

definition symbolPatterns :: "pattern list" where
  "symbolPatterns = map (Pair Symbol) [0..<5]"

definition filePatterns :: "pattern list" where
  "filePatterns = map (Pair File) [0..<4]"

definition explanationPatterns :: "pattern list" where
  "explanationPatterns = map (Pair Explanation) [0..<5]"

definition howtoPatterns :: "pattern list" where
  "howtoPatterns = map (Pair Howto) [0..<5]"

definition routePatterns :: "pattern list" where
  "routePatterns = map (Pair Route) [0..<4]"

definition errorPatterns :: "pattern list" where
  "errorPatterns = map (Pair Error) [0..<5]"

definition allPatterns :: "pattern list" where
  "allPatterns =
     symbolPatterns @ filePatterns @ explanationPatterns @ howtoPatterns @ routePatterns
       @ errorPatterns"

text \<open>The body of the loop of \<^verbatim>\<open>calculatePatternScore\<close>, for one pattern.\<close>

definition patternStep :: "regex_engine \<Rightarrow> string \<Rightarrow> pattern \<Rightarrow> real \<Rightarrow> real" where
  "patternStep eng query pattern score =
     (if re_test eng pattern query
      then (let score1 = score + 1;
                matches = re_match_count eng pattern query
            in if matches > 1 then score1 + real matches * 0.2 else score1)
      else score)"

definition calculatePatternScore :: "regex_engine \<Rightarrow> string \<Rightarrow> pattern list \<Rightarrow> real" where
  "calculatePatternScore eng query patterns = fold (patternStep eng query) patterns 0"

text \<open>\<^verbatim>\<open>Math.max(...values)\<close> of at least one value.\<close>

fun Math_max :: "real list \<Rightarrow> real" where
  "Math_max (x # xs) = fold max xs x"

text \<open>The \<^verbatim>\<open>scores\<close> object as the list of its entries, in the order of its keys.\<close>

definition calculateScores :: "regex_engine \<Rightarrow> string \<Rightarrow> (intent_type \<times> real) list" where
  "calculateScores eng query =
     (let scores =
            [(Symbol, calculatePatternScore eng query symbolPatterns),
             (File, calculatePatternScore eng query filePatterns),
             (Explanation, calculatePatternScore eng query explanationPatterns),
             (Howto, calculatePatternScore eng query howtoPatterns),
             (Route, calculatePatternScore eng query routePatterns),
             (Error, calculatePatternScore eng query errorPatterns)];
          maxRawScore = Math_max (map snd scores);
          scores1 = (if maxRawScore > 0 then map (\<lambda>(key, v). (key, v / maxRawScore)) scores
                     else scores)
      in if maxRawScore = 0 then AList.update Explanation 0.5 scores1 else scores1)"

text \<open>\<^verbatim>\<open>[...new Set(xs)]\<close>: the first occurrence of every element, in order.\<close>

fun unique :: "'a list \<Rightarrow> 'a list" where
  "unique [] = []"
| "unique (x # xs) = x # unique (filter (\<lambda>y. y \<noteq> x) xs)"

definition trim :: "string \<Rightarrow> string" where
  "trim s = rev (dropWhile is_space_char (rev (dropWhile is_space_char s)))"

definition extractEntities :: "regex_engine \<Rightarrow> string \<Rightarrow> string list" where
  "extractEntities eng query =
     (let entities = concat (map (\<lambda>k. map trim (re_entities eng k query)) [0..<5])
      in take 5 (filter (\<lambda>entity. length entity > 2) (unique entities)))"

text \<open>The stop words of \<^verbatim>\<open>extractKeywords\<close>. The two entries of the source with a
  non-word character can equal no word from which the non-word characters were removed
  and are left out; entries that the source lists twice are listed twice.\<close>

definition keywordStopWords :: "string list" where
  "keywordStopWords =
     [''o'', ''a'', ''os'', ''as'', ''um'', ''uma'', ''de'', ''do'', ''da'', ''dos'', ''das'',
      ''em'', ''no'', ''na'', ''nos'', ''nas'', ''com'', ''por'', ''para''] @ stopWords"

definition extractKeywords :: "string \<Rightarrow> string list" where
  "extractKeywords query =
     take 10
       (filter (\<lambda>word. length word > 2 \<and> word \<notin> set keywordStopWords)
          (map (\<lambda>word. toLowerCase (filter is_word_char word)) (split_ws query)))"

definition classifyIntent :: "regex_engine \<Rightarrow> string \<Rightarrow> query_intent" where
  "classifyIntent eng query =
     (let queryLower = toLowerCase query;
          scores = calculateScores eng queryLower;
          maxScore = Math_max (map snd scores);
          maxType = map_option fst (find (\<lambda>(t, score). score = maxScore) scores)
      in \<lparr>qi_type = (case maxType of Some t \<Rightarrow> t | None \<Rightarrow> Explanation),
          qi_confidence = maxScore,
          qi_entities = extractEntities eng query,
          qi_keywords = extractKeywords queryLower\<rparr>)"

definition enhanceQuery :: "string \<Rightarrow> query_intent \<Rightarrow> string list" where
  "enhanceQuery originalQuery intent =
     (let queries =
            [originalQuery] @
            (case qi_type intent of
               Symbol \<Rightarrow>
                 concat (map (\<lambda>entity.
                                [entity, ''export '' @ entity, ''import '' @ entity,
                                 entity @ '' function'', entity @ '' component''])
                           (qi_entities intent))
             | File \<Rightarrow>
                 concat (map (\<lambda>keyword.
                                [keyword @ '' file'', keyword @ ''.ts'', keyword @ ''.tsx'',
                                 keyword @ ''.js''])
                           (qi_keywords intent))
             | Howto \<Rightarrow>
                 [''example'', ''usage'', ''implement''] @
                 concat (map (\<lambda>keyword. [''how to '' @ keyword, keyword @ '' example''])
                           (qi_keywords intent))
             | Error \<Rightarrow>
                 [''error'', ''exception'', ''try catch''] @
                 concat (map (\<lambda>keyword. [keyword @ '' error'', keyword @ '' exception''])
                           (qi_keywords intent))
             | Route \<Rightarrow> [''route'', ''router'', ''path'', ''page'']
             | _ \<Rightarrow> [])
      in take 6 (unique queries))"

section \<open>Answer orchestrator (chat/response-generator.ts)\<close>

subsection \<open>Messages, the generation contract and the retrieval index\<close>

datatype role = User | Assistant | System

text \<open>\<^verbatim>\<open>ChatMessage\<close>, with the three fields of \<^verbatim>\<open>metadata\<close> flattened into the record.\<close>

record chat_message =
  msg_id :: string
  msg_role :: role
  msg_content :: string
  msg_timestamp :: nat
  msg_citations :: "citation list"
  msg_processingTime :: "nat option"
  msg_tokensUsed :: "nat option"
  msg_confidence :: "real option"

record llm_response =
  llm_content :: string
  llm_tokensUsed :: "nat option"
  llm_processingTime :: nat
  llm_confidence :: "real option"
  llm_citations :: "citation list"

text \<open>What a consumer sees of an asynchronous generator of strings that ends: the
  fragments it yields, in order, and then either its normal end or the exception it
  throws. A generator that never ends, like a promise that never settles, is outside the
  model.\<close>

type_synonym stream = "string list \<times> exn option"

text \<open>\<^verbatim>\<open>LLMProvider\<close>: \<^verbatim>\<open>generate\<close> resolves or rejects; \<^verbatim>\<open>generateStream\<close> is optional.\<close>

record llm_provider =
  llm_generate :: "string \<Rightarrow> string list \<Rightarrow> exn + llm_response"
  llm_generateStream :: "(string \<Rightarrow> string list \<Rightarrow> exn + stream) option"

record search_filters =
  f_filePath :: "string option"
  f_language :: "string option"
  f_type :: "string list option"
  f_tags :: "string list option"

record search_query =
  q_text :: string
  q_type :: intent_type
  q_filters :: "search_filters option"

text \<open>The retrieval index as the orchestrator sees it: \<^verbatim>\<open>search(query, limit)\<close> resolves to
  results or rejects.\<close>

type_synonym search_index = "search_query \<Rightarrow> nat \<Rightarrow> exn + search_result list"

text \<open>The caller's sink \<^verbatim>\<open>onChunk\<close>: absent, or a callback that returns or throws.\<close>

type_synonym sink = "(string \<Rightarrow> exn option) option"

record response_config =
  cfg_maxTokens :: nat
  cfg_temperature :: real
  cfg_requireCitations :: bool
  cfg_noResponseThreshold :: real
  cfg_language :: string

definition defaultConfig :: response_config where
  "defaultConfig =
     \<lparr>cfg_maxTokens = 2000, cfg_temperature = 0.1, cfg_requireCitations = True,
      cfg_noResponseThreshold = 0.3, cfg_language = ''pt''\<rparr>"

text \<open>What a request reads from the clock and the random generator: the string that
  \<^verbatim>\<open>generateMessageId\<close> builds, the date of the message and the rounded time elapsed
  since the request began.\<close>

record env =
  env_messageId :: string
  env_now :: nat
  env_elapsed :: nat

text \<open>What the orchestrator does to its collaborators, in order.\<close>

datatype event =
  Generate string "string list"
| GenerateStream string "string list"
| OnChunk string

type_synonym 'a run = "event list \<times> (exn + 'a)"

definition ret :: "'a \<Rightarrow> 'a run" where
  "ret x = ([], Inr x)"

definition bind :: "'a run \<Rightarrow> ('a \<Rightarrow> 'b run) \<Rightarrow> 'b run" where
  "bind m f =
     (case m of
        (ev, Inl e) \<Rightarrow> (ev, Inl e)
      | (ev, Inr x) \<Rightarrow> (case f x of (ev', r) \<Rightarrow> (ev @ ev', r)))"

definition callGenerate :: "llm_provider \<Rightarrow> string \<Rightarrow> string list \<Rightarrow> llm_response run" where
  "callGenerate llm prompt context = ([Generate prompt context], llm_generate llm prompt context)"

text \<open>\<^verbatim>\<open>if (onChunk) onChunk(s)\<close>\<close>

definition emit :: "sink \<Rightarrow> string \<Rightarrow> unit run" where
  "emit onChunk s =
     (case onChunk of
        None \<Rightarrow> ([], Inr ())
      | Some f \<Rightarrow> ([OnChunk s], case f s of None \<Rightarrow> Inr () | Some e \<Rightarrow> Inl e))"

subsection \<open>Strings\<close>

definition nl :: string where
  "nl = [CHR 0x0A]"

definition dq :: string where
  "dq = [CHR 0x22]"

text \<open>\<^verbatim>\<open>xs.join(sep)\<close>\<close>

fun js_join :: "string \<Rightarrow> string list \<Rightarrow> string" where
  "js_join sep [] = []"
| "js_join sep [x] = x"
| "js_join sep (x # y # ys) = x @ sep @ js_join sep (y # ys)"

text \<open>The decimal digits of a line number.\<close>

function show_nat :: "nat \<Rightarrow> string" where
  "show_nat n =
     (if n < 10 then [char_of (48 + n)]
      else show_nat (n div 10) @ [char_of (48 + n mod 10)])"
  by pat_completeness auto
termination
  by (relation "measure id") auto

text \<open>\<^verbatim>\<open>s.split(" ")\<close>\<close>

fun split_space :: "string \<Rightarrow> string list" where
  "split_space [] = [[]]"
| "split_space (c # cs) =
     (if c = CHR '' '' then [] # split_space cs
      else (case split_space cs of [] \<Rightarrow> [[c]] | w # ws \<Rightarrow> (c # w) # ws))"

text \<open>\<^verbatim>\<open>path.split("/").pop()\<close>\<close>

definition lastSegment :: "string \<Rightarrow> string" where
  "lastSegment path = rev (takeWhile (\<lambda>c. c \<noteq> CHR ''/'') (rev path))"

definition endsWith :: "string \<Rightarrow> string \<Rightarrow> bool" where
  "endsWith s suffix =
     (length suffix \<le> length s \<and> drop (length s - length suffix) s = suffix)"

text \<open>\<^verbatim>\<open>entity.match(/\.(ts|tsx|js|jsx|md|json)$/i)\<close>\<close>

definition hasSourceExtension :: "string \<Rightarrow> bool" where
  "hasSourceExtension entity =
     (\<exists>ext \<in> set [''.ts'', ''.tsx'', ''.js'', ''.jsx'', ''.md'', ''.json''].
        endsWith (toLowerCase entity) ext)"

subsection \<open>Retrieval of the context\<close>

definition createFiltersFromIntent :: "query_intent \<Rightarrow> search_filters option" where
  "createFiltersFromIntent intent =
     (let filters0 = \<lparr>f_filePath = None, f_language = None, f_type = None, f_tags = None\<rparr>;
          filters1 =
            (case qi_type intent of
               Symbol \<Rightarrow> filters0\<lparr>f_type := Some [''function'', ''component'', ''hook'', ''service'']\<rparr>
             | File \<Rightarrow> filters0\<lparr>f_type := Some [''file'']\<rparr>
             | Route \<Rightarrow> filters0\<lparr>f_type := Some [''route'', ''file''],
                                 f_tags := Some [''route'', ''router'', ''navigation'']\<rparr>
             | Test \<Rightarrow> filters0\<lparr>f_type := Some [''test''], f_tags := Some [''test'']\<rparr>
             | Howto \<Rightarrow> filters0
             | Error \<Rightarrow> filters0\<lparr>f_tags := Some [''error'', ''exception'', ''try'', ''catch'']\<rparr>
             | Explanation \<Rightarrow> filters0);
          fileEntities =
            filter (\<lambda>entity. CHR ''.'' \<in> set entity \<or> hasSourceExtension entity)
              (qi_entities intent);
          filters2 =
            (case fileEntities of
               [] \<Rightarrow> filters1
             | entity # _ \<Rightarrow> filters1\<lparr>f_filePath := Some entity\<rparr>)
      in if f_filePath filters2 = None \<and> f_language filters2 = None
            \<and> f_type filters2 = None \<and> f_tags filters2 = None
         then None else Some filters2)"

text \<open>The filter callback of \<^verbatim>\<open>deduplicateResults\<close> with its set \<^verbatim>\<open>seen\<close>.\<close>

fun dedupFilter :: "string list \<Rightarrow> search_result list \<Rightarrow> search_result list" where
  "dedupFilter seen [] = []"
| "dedupFilter seen (result # results) =
     (if chunk_id (sr_chunk result) \<in> set seen then dedupFilter seen results
      else result # dedupFilter (chunk_id (sr_chunk result) # seen) results)"

definition deduplicateResults :: "search_result list \<Rightarrow> search_result list" where
  "deduplicateResults results = sort_key (\<lambda>r. - sr_score r) (dedupFilter [] results)"

definition boost :: "query_intent \<Rightarrow> search_result \<Rightarrow> search_result" where
  "boost intent result =
     result\<lparr>sr_score := sr_score result * (0.5 + qi_confidence intent * 0.5),
            sr_relevance := sr_relevance result * (0.5 + qi_confidence intent * 0.5)\<rparr>"

text \<open>The results pushed to \<^verbatim>\<open>allResults\<close> by the loop over the expanded queries; a search
  that throws is logged and contributes nothing.\<close>

definition collectResults ::
  "search_index \<Rightarrow> query_intent \<Rightarrow> string list \<Rightarrow> search_result list" where
  "collectResults search intent expandedQueries =
     fold (\<lambda>queryText allResults.
             case search \<lparr>q_text = queryText, q_type = qi_type intent,
                          q_filters = createFiltersFromIntent intent\<rparr> 8 of
               Inl e \<Rightarrow> allResults
             | Inr results \<Rightarrow> allResults @ map (boost intent) results)
          expandedQueries []"

definition searchRelevantContext ::
  "search_index \<Rightarrow> string \<Rightarrow> query_intent \<Rightarrow> search_result list" where
  "searchRelevantContext search userMessage intent =
     (let expandedQueries = enhanceQuery userMessage intent;
          allResults = collectResults search intent expandedQueries;
          uniqueResults = deduplicateResults allResults
      in take 6 uniqueResults)"

definition hasSufficientContext :: "search_result list \<Rightarrow> bool" where
  "hasSufficientContext searchResults =
     (case searchResults of
        [] \<Rightarrow> False
      | first # _ \<Rightarrow>
          (let bestScore = (if sr_score first = 0 then 0 else sr_score first)
           in bestScore > 0.1))"

definition roleUpper :: "role \<Rightarrow> string" where
  "roleUpper r = (case r of User \<Rightarrow> ''USER'' | Assistant \<Rightarrow> ''ASSISTANT'' | System \<Rightarrow> ''SYSTEM'')"

definition prepareContext :: "search_result list \<Rightarrow> chat_message list option \<Rightarrow> string list" where
  "prepareContext searchResults previousMessages =
     (let context =
            map (\<lambda>result.
                   let chunk = sr_chunk result
                   in trim (nl @ ''ARQUIVO: '' @ chunk_filePath chunk @ nl
                            @ ''LINHAS: '' @ show_nat (chunk_startLine chunk) @ ''-''
                            @ show_nat (chunk_endLine chunk) @ nl
                            @ ''LINGUAGEM: '' @ chunk_language chunk @ nl
                            @ ''TIPO: '' @ chunk_metadata_type chunk @ nl
                            @ ''CONTEUDO:'' @ nl
                            @ chunk_content chunk @ nl @ ''      ''))
                searchResults
      in case previousMessages of
           None \<Rightarrow> context
         | Some msgs \<Rightarrow>
             if length msgs > 0
             then (let recentMessages = drop (length msgs - 3) msgs;
                       messageContext =
                         js_join nl (map (\<lambda>msg. roleUpper (msg_role msg) @ '': '' @ msg_content msg)
                                        recentMessages)
                   in context @ [''CONTEXTO DA CONVERSA:'' @ nl @ messageContext])
             else context)"

definition enhanceCitations :: "citation list \<Rightarrow> search_result list \<Rightarrow> citation list" where
  "enhanceCitations llmCitations searchResults =
     fold (\<lambda>result enhanced.
             if (\<exists>cit \<in> set enhanced.
                   cit_filePath cit = chunk_filePath (sr_chunk result)
                   \<and> cit_startLine cit = chunk_startLine (sr_chunk result))
             then enhanced
             else enhanced @ [chunkCitation (sr_chunk result)])
          searchResults llmCitations"

subsection \<open>The terminal messages\<close>

definition createNoResponseMessage :: "env \<Rightarrow> string \<Rightarrow> search_result list \<Rightarrow> chat_message" where
  "createNoResponseMessage env userMessage searchResults =
     (let suggestions0 =
            [''Tente usar termos mais especificos'',
             ''Verifique se o codigo foi indexado corretamente'',
             ''Use nomes de funcoes, classes ou arquivos especificos''];
          suggestions =
            (if length searchResults > 0
             then (let files = take 3 (map (\<lambda>r. lastSegment (chunk_filePath (sr_chunk r)))
                                         searchResults)
                   in suggestions0 @ [''Talvez voce esteja procurando em: '' @ js_join '', '' files])
             else suggestions0)
      in \<lparr>msg_id = env_messageId env, msg_role = Assistant,
          msg_content =
            ''Nao encontrei informacoes suficientes sobre '' @ dq @ userMessage @ dq
            @ '' no codigo indexado.'' @ nl @ nl @ ''**Sugestoes:**'' @ nl
            @ js_join nl (map (\<lambda>s. ''* '' @ s) suggestions) @ nl @ nl
            @ ''Tente refinar sua pergunta ou verificar se os arquivos relevantes foram indexados.'',
          msg_timestamp = env_now env, msg_citations = [],
          msg_processingTime = Some 0, msg_tokensUsed = None, msg_confidence = Some 0\<rparr>)"

definition createLowConfidenceMessage :: "env \<Rightarrow> string \<Rightarrow> search_result list \<Rightarrow> chat_message" where
  "createLowConfidenceMessage env userMessage searchResults =
     (let fileHints =
            js_join nl
              (map (\<lambda>r. ''* '' @ chunk_filePath (sr_chunk r) @ '':''
                         @ show_nat (chunk_startLine (sr_chunk r)) @ ''-''
                         @ show_nat (chunk_endLine (sr_chunk r)))
                 (take 3 searchResults))
      in \<lparr>msg_id = env_messageId env, msg_role = Assistant,
          msg_content =
            ''Encontrei algumas informacoes relacionadas a '' @ dq @ userMessage @ dq
            @ '', mas nao tenho confianca suficiente para dar uma resposta precisa.'' @ nl @ nl
            @ ''**Arquivos que podem ser relevantes:**'' @ nl @ fileHints @ nl @ nl
            @ ''Tente ser mais especifico em sua pergunta ou consulte diretamente esses arquivos.'',
          msg_timestamp = env_now env,
          msg_citations = map (\<lambda>r. chunkCitation (sr_chunk r)) (take 3 searchResults),
          msg_processingTime = Some 0, msg_tokensUsed = None, msg_confidence = Some 0.2\<rparr>)"

definition createErrorMessage :: "env \<Rightarrow> string \<Rightarrow> chat_message" where
  "createErrorMessage env userMessage =
     \<lparr>msg_id = env_messageId env, msg_role = Assistant,
      msg_content =
        ''Desculpe, ocorreu um erro interno ao processar sua pergunta: '' @ dq @ userMessage
        @ dq @ ''.'' @ nl @ nl
        @ ''Tente novamente em alguns instantes. Se o problema persistir, verifique se o sistema esta funcionando corretamente.'',
      msg_timestamp = env_now env, msg_citations = [],
      msg_processingTime = Some 0, msg_tokensUsed = None, msg_confidence = Some 0\<rparr>"

text \<open>The message assembled from a response of the backend that passed the confidence
  gate.\<close>

definition responseMessage :: "env \<Rightarrow> llm_response \<Rightarrow> search_result list \<Rightarrow> chat_message" where
  "responseMessage env llmResponse searchResults =
     \<lparr>msg_id = env_messageId env, msg_role = Assistant,
      msg_content = llm_content llmResponse,
      msg_timestamp = env_now env,
      msg_citations = enhanceCitations (llm_citations llmResponse) searchResults,
      msg_processingTime = Some (env_elapsed env),
      msg_tokensUsed = llm_tokensUsed llmResponse,
      msg_confidence = llm_confidence llmResponse\<rparr>"

text \<open>The condition of the confidence gate,
  \<^verbatim>\<open>llmResponse.confidence && llmResponse.confidence < this.config.noResponseThreshold\<close>:
  an absent confidence and the number 0 are both falsy.\<close>

definition confidenceGate :: "response_config \<Rightarrow> llm_response \<Rightarrow> bool" where
  "confidenceGate config llmResponse =
     (case llm_confidence llmResponse of
        None \<Rightarrow> False
      | Some c \<Rightarrow> c \<noteq> 0 \<and> c < cfg_noResponseThreshold config)"

subsection \<open>generateResponse\<close>

text \<open>The body of the \<^verbatim>\<open>try\<close> block.\<close>

definition generateResponse_try ::
  "env \<Rightarrow> regex_engine \<Rightarrow> search_index \<Rightarrow> llm_provider \<Rightarrow> response_config \<Rightarrow> string
     \<Rightarrow> query_intent option \<Rightarrow> chat_message list option \<Rightarrow> chat_message run" where
  "generateResponse_try env eng search llm config userMessage intent previousMessages =
     (let classifiedIntent = (case intent of Some i \<Rightarrow> i | None \<Rightarrow> classifyIntent eng userMessage);
          searchResults = searchRelevantContext search userMessage classifiedIntent
      in if \<not> hasSufficientContext searchResults
         then ret (createNoResponseMessage env userMessage searchResults)
         else
           let context = prepareContext searchResults previousMessages
           in bind (callGenerate llm userMessage context)
                (\<lambda>llmResponse.
                   if confidenceGate config llmResponse
                   then ret (createLowConfidenceMessage env userMessage searchResults)
                   else ret (responseMessage env llmResponse searchResults)))"

text \<open>The whole method: the \<^verbatim>\<open>catch\<close> clause turns an exception of the body into the
  apology.\<close>

definition generateResponse ::
  "env \<Rightarrow> regex_engine \<Rightarrow> search_index \<Rightarrow> llm_provider \<Rightarrow> response_config \<Rightarrow> string
     \<Rightarrow> query_intent option \<Rightarrow> chat_message list option \<Rightarrow> chat_message run" where
  "generateResponse env eng search llm config userMessage intent previousMessages =
     (case generateResponse_try env eng search llm config userMessage intent previousMessages of
        (ev, Inl e) \<Rightarrow> (ev, Inr (createErrorMessage env userMessage))
      | (ev, Inr m) \<Rightarrow> (ev, Inr m))"

subsection \<open>generateStreamingResponse\<close>

text \<open>The \<^verbatim>\<open>for await\<close> loop: every fragment is appended to \<^verbatim>\<open>streamingContent\<close> and
  handed to the sink; an exception of the sink ends the loop.\<close>

fun consume :: "sink \<Rightarrow> string list \<Rightarrow> string \<Rightarrow> string run" where
  "consume onChunk [] streamingContent = ret streamingContent"
| "consume onChunk (fragment # rest) streamingContent =
     bind (emit onChunk fragment) (\<lambda>_. consume onChunk rest (streamingContent @ fragment))"

text \<open>The loop that replays the words of a complete answer to the sink.\<close>

fun emitAll :: "sink \<Rightarrow> string list \<Rightarrow> unit run" where
  "emitAll onChunk [] = ret ()"
| "emitAll onChunk (w # ws) = bind (emit onChunk w) (\<lambda>_. emitAll onChunk ws)"

text \<open>The response built from the accumulated text of a stream:
  \<^verbatim>\<open>Math.ceil(streamingContent.length / 4)\<close> tokens and the constant confidence.\<close>

definition streamedResponse :: "env \<Rightarrow> string \<Rightarrow> llm_response" where
  "streamedResponse env streamingContent =
     \<lparr>llm_content = streamingContent,
      llm_tokensUsed = Some ((length streamingContent + 3) div 4),
      llm_processingTime = env_elapsed env,
      llm_confidence = Some 0.8,
      llm_citations = []\<rparr>"

text \<open>The generation step: \<^verbatim>\<open>streamingContent\<close> and \<^verbatim>\<open>llmResponse\<close> after the \<^verbatim>\<open>if\<close> on
  \<^verbatim>\<open>this.llm.generateStream\<close>.\<close>

definition streamGeneration ::
  "env \<Rightarrow> llm_provider \<Rightarrow> sink \<Rightarrow> string \<Rightarrow> string list \<Rightarrow> (string \<times> llm_response) run" where
  "streamGeneration env llm onChunk userMessage context =
     (case llm_generateStream llm of
        Some generateStream \<Rightarrow>
          bind ([GenerateStream userMessage context], generateStream userMessage context)
            (\<lambda>(fragments, failure).
               bind (consume onChunk fragments [])
                 (\<lambda>streamingContent.
                    case failure of
                      Some e \<Rightarrow> ([], Inl e)
                    | None \<Rightarrow> ret (streamingContent, streamedResponse env streamingContent)))
      | None \<Rightarrow>
          bind (callGenerate llm userMessage context)
            (\<lambda>llmResponse.
               bind (case onChunk of
                       None \<Rightarrow> ret ()
                     | Some f \<Rightarrow>
                         emitAll onChunk
                           (map (\<lambda>word. word @ '' '') (split_space (llm_content llmResponse))))
                 (\<lambda>_. ret ([], llmResponse))))"

definition generateStreamingResponse_try ::
  "env \<Rightarrow> regex_engine \<Rightarrow> search_index \<Rightarrow> llm_provider \<Rightarrow> response_config \<Rightarrow> string
     \<Rightarrow> query_intent option \<Rightarrow> chat_message list option \<Rightarrow> sink \<Rightarrow> chat_message run" where
  "generateStreamingResponse_try env eng search llm config userMessage intent previousMessages
       onChunk =
     (let classifiedIntent = (case intent of Some i \<Rightarrow> i | None \<Rightarrow> classifyIntent eng userMessage);
          searchResults = searchRelevantContext search userMessage classifiedIntent
      in if \<not> hasSufficientContext searchResults
         then (let noResponseMessage = createNoResponseMessage env userMessage searchResults
               in bind (emit onChunk (msg_content noResponseMessage)) (\<lambda>_. ret noResponseMessage))
         else
           let context = prepareContext searchResults previousMessages
           in bind (streamGeneration env llm onChunk userMessage context)
                (\<lambda>(streamingContent, llmResponse).
                   if confidenceGate config llmResponse
                   then (let lowConfidenceMessage =
                               createLowConfidenceMessage env userMessage searchResults
                         in bind (if streamingContent = []
                                  then emit onChunk (msg_content lowConfidenceMessage)
                                  else ret ())
                              (\<lambda>_. ret lowConfidenceMessage))
                   else ret (responseMessage env llmResponse searchResults)))"

text \<open>The whole method. Its \<^verbatim>\<open>catch\<close> clause hands the apology to the sink before it
  returns it, outside any \<^verbatim>\<open>try\<close>.\<close>

definition generateStreamingResponse ::
  "env \<Rightarrow> regex_engine \<Rightarrow> search_index \<Rightarrow> llm_provider \<Rightarrow> response_config \<Rightarrow> string
     \<Rightarrow> query_intent option \<Rightarrow> chat_message list option \<Rightarrow> sink \<Rightarrow> chat_message run" where
  "generateStreamingResponse env eng search llm config userMessage intent previousMessages onChunk =
     (case generateStreamingResponse_try env eng search llm config userMessage intent
             previousMessages onChunk of
        (ev, Inl e) \<Rightarrow>
          (let errorMessage = createErrorMessage env userMessage
           in case emit onChunk (msg_content errorMessage) of
                (ev', Inl e') \<Rightarrow> (ev @ ev', Inl e')
              | (ev', Inr u) \<Rightarrow> (ev @ ev', Inr errorMessage))
      | (ev, Inr m) \<Rightarrow> (ev, Inr m))"

text \<open>Whether a run called the generation backend.\<close>

definition isBackendCall :: "event \<Rightarrow> bool" where
  "isBackendCall ev = (case ev of Generate p c \<Rightarrow> True | GenerateStream p c \<Rightarrow> True | OnChunk s \<Rightarrow> False)"

section \<open>Auxiliary definitions and concrete inputs\<close>

text \<open>The six raw scores that \<^const>\<open>calculateScores\<close> starts from.\<close>

definition rawScores :: "regex_engine \<Rightarrow> string \<Rightarrow> (intent_type \<times> real) list" where
  "rawScores eng query =
     [(Symbol, calculatePatternScore eng query symbolPatterns),
      (File, calculatePatternScore eng query filePatterns),
      (Explanation, calculatePatternScore eng query explanationPatterns),
      (Howto, calculatePatternScore eng query howtoPatterns),
      (Route, calculatePatternScore eng query routePatterns),
      (Error, calculatePatternScore eng query errorPatterns)]"

text \<open>An engine in which only the first symbol pattern matches, and only the lower-cased
  query \<^verbatim>\<open>function useapi\<close>.\<close>

definition eng0 :: regex_engine where
  "eng0 = \<lparr>re_test = (\<lambda>p q. p = (Symbol, 0) \<and> q = ''function useapi''),
           re_match_count = (\<lambda>p q. if p = (Symbol, 0) \<and> q = ''function useapi'' then 1 else 0),
           re_entities = (\<lambda>k q. [])\<rparr>"


text \<open>Two chunks of a small corpus and a constant scorer.\<close>

definition chunkA :: chunk where
  "chunkA = \<lparr>chunk_id = ''src/hooks/useApi.ts:1-20'',
             chunk_content = ''export function useApi() { return fetchJson(url) }'',
             chunk_filePath = ''src/hooks/useApi.ts'', chunk_startLine = 1, chunk_endLine = 20,
             chunk_language = ''typescript'', chunk_metadata_type = ''hook'',
             chunk_metadata_tags = [''hook'']\<rparr>"

definition chunkB :: chunk where
  "chunkB = \<lparr>chunk_id = ''src/utils/format.ts:1-12'',
             chunk_content = ''export const formatDate = (d) => d.toISOString()'',
             chunk_filePath = ''src/utils/format.ts'', chunk_startLine = 1, chunk_endLine = 12,
             chunk_language = ''typescript'', chunk_metadata_type = ''function'',
             chunk_metadata_tags = []\<rparr>"




definition chunkC :: chunk where
  "chunkC = \<lparr>chunk_id = ''src/utils/format.test.ts:1-9'',
             chunk_content = ''test(formatDate, () => expect(formatDate(d)).toBeDefined())'',
             chunk_filePath = ''src/utils/format.test.ts'', chunk_startLine = 1, chunk_endLine = 9,
             chunk_language = ''typescript'', chunk_metadata_type = ''test'',
             chunk_metadata_tags = [''test'']\<rparr>"

text \<open>A symbol intent for the question \<^verbatim>\<open>useApi hook\<close>, an index that finds \<open>chunkA\<close> with
  the score 0.2 for the question itself and with the score 0.9 for the expanded query
  \<^verbatim>\<open>useApi\<close>, and the request environment of the examples.\<close>

definition intentUseApi :: query_intent where
  "intentUseApi =
     \<lparr>qi_type = Symbol, qi_confidence = 1, qi_entities = [''useApi''],
      qi_keywords = [''useapi'', ''hook'']\<rparr>"

definition searchTwice :: search_index where
  "searchTwice query limit =
     (if q_text query = ''useApi hook'' then Inr [mkResult chunkA 0.2]
      else if q_text query = ''useApi'' then Inr [mkResult chunkA 0.9]
      else Inr [])"

text \<open>The list that \<^const>\<open>deduplicateResults\<close> receives in \<^const>\<open>searchRelevantContext\<close>.\<close>

definition mergedResults :: "search_index \<Rightarrow> string \<Rightarrow> query_intent \<Rightarrow> search_result list" where
  "mergedResults search userMessage intent =
     collectResults search intent (enhanceQuery userMessage intent)"


text \<open>The two constants that both orchestrator methods compute first.\<close>

definition classifiedIntent :: "regex_engine \<Rightarrow> string \<Rightarrow> query_intent option \<Rightarrow> query_intent" where
  "classifiedIntent eng userMessage intent =
     (case intent of Some i \<Rightarrow> i | None \<Rightarrow> classifyIntent eng userMessage)"

definition searchResults ::
  "regex_engine \<Rightarrow> search_index \<Rightarrow> string \<Rightarrow> query_intent option \<Rightarrow> search_result list" where
  "searchResults eng search userMessage intent =
     searchRelevantContext search userMessage (classifiedIntent eng userMessage intent)"

text \<open>Whether the sink, if there is one, returns normally when it is handed \<open>s\<close>.\<close>

definition sinkAccepts :: "sink \<Rightarrow> string \<Rightarrow> bool" where
  "sinkAccepts onChunk s = (case onChunk of None \<Rightarrow> True | Some f \<Rightarrow> f s = None)"

text \<open>A request environment, an index that finds nothing, and backends: one that throws,
  one that reports the confidence 0 (the answer of the local-model provider when the model
  is unreachable), and one that streams two fragments.\<close>

definition env0 :: env where
  "env0 = \<lparr>env_messageId = ''msg-1730556000000-k3j9x2a1b'', env_now = 1730556000000,
           env_elapsed = 42\<rparr>"



definition zeroResponse :: llm_response where
  "zeroResponse =
     \<lparr>llm_content = ''Desculpe, o modelo local nao esta disponivel no momento.'',
      llm_tokensUsed = Some 0, llm_processingTime = 3, llm_confidence = Some 0,
      llm_citations = []\<rparr>"

definition llmZero :: llm_provider where
  "llmZero = \<lparr>llm_generate = (\<lambda>prompt context. Inr zeroResponse), llm_generateStream = None\<rparr>"

definition llmStreams :: llm_provider where
  "llmStreams =
     \<lparr>llm_generate = (\<lambda>prompt context. Inr zeroResponse),
      llm_generateStream = Some (\<lambda>prompt context. Inr ([''The hook '', ''is useApi.''], None))\<rparr>"



section \<open>Verification\<close>

subsection \<open>C10: the confidence of a classification is 1 or 0.5\<close>

lemma patternStep_ge: "s \<le> patternStep eng query p s"
  by (simp add: patternStep_def Let_def)

lemma patternStep_match: "re_test eng p query \<Longrightarrow> s + 1 \<le> patternStep eng query p s"
  by (simp add: patternStep_def Let_def)

lemma patternStep_nomatch: "\<not> re_test eng p query \<Longrightarrow> patternStep eng query p s = s"
  by (simp add: patternStep_def)

lemma patternScore_fold_ge: "s \<le> fold (patternStep eng query) ps s"
proof (induction ps arbitrary: s)
  case Nil
  show ?case by simp
next
  case (Cons p ps)
  have "s \<le> patternStep eng query p s" by (rule patternStep_ge)
  also have "\<dots> \<le> fold (patternStep eng query) ps (patternStep eng query p s)" by (rule Cons.IH)
  finally show ?case by simp
qed

lemma patternScore_fold_eq:
  "(fold (patternStep eng query) ps s = s) = (\<forall>p \<in> set ps. \<not> re_test eng p query)"
proof (induction ps arbitrary: s)
  case Nil
  show ?case by simp
next
  case (Cons p ps)
  show ?case
  proof (cases "re_test eng p query")
    case False
    then show ?thesis using Cons.IH by (simp add: patternStep_nomatch)
  next
    case True
    have "s + 1 \<le> patternStep eng query p s" using True by (rule patternStep_match)
    also have "\<dots> \<le> fold (patternStep eng query) ps (patternStep eng query p s)"
      by (rule patternScore_fold_ge)
    finally have "fold (patternStep eng query) (p # ps) s \<noteq> s" by simp
    then show ?thesis using True by simp
  qed
qed

lemma calculatePatternScore_nonneg: "0 \<le> calculatePatternScore eng query ps"
  unfolding calculatePatternScore_def by (rule patternScore_fold_ge)

lemma calculatePatternScore_zero:
  "(calculatePatternScore eng query ps = 0) = (\<forall>p \<in> set ps. \<not> re_test eng p query)"
  unfolding calculatePatternScore_def by (rule patternScore_fold_eq)

lemma Math_max_divide:
  "0 < (c::real) \<Longrightarrow> fold max (map (\<lambda>v. v / c) xs) (x / c) = fold max xs x / c"
proof (induction xs arbitrary: x)
  case Nil
  show ?case by simp
next
  case (Cons y ys)
  have "max (y / c) (x / c) = max y x / c"
    using Cons.prems by (simp add: max_def divide_le_cancel)
  then show ?case using Cons by simp
qed

lemma Math_max_Max: "Math_max (x # xs) = Max (set (x # xs))"
  by (simp only: Math_max.simps Max.set_eq_fold)

lemma calculateScores_raw:
  "calculateScores eng query =
     (let scores = rawScores eng query;
          maxRawScore = Math_max (map snd scores);
          scores1 = (if maxRawScore > 0 then map (\<lambda>(key, v). (key, v / maxRawScore)) scores
                     else scores)
      in if maxRawScore = 0 then AList.update Explanation 0.5 scores1 else scores1)"
  by (simp only: calculateScores_def rawScores_def)

lemma rawScores_nonneg: "v \<in> set (map snd (rawScores eng query)) \<Longrightarrow> 0 \<le> v"
  by (auto simp: rawScores_def calculatePatternScore_nonneg)

lemma rawScores_zero:
  "(\<forall>v \<in> set (map snd (rawScores eng query)). v = 0)
     = (\<forall>p \<in> set allPatterns. \<not> re_test eng p query)"
  by (simp add: rawScores_def calculatePatternScore_zero allPatterns_def ball_Un)

lemma rawScores_max_zero:
  "(Math_max (map snd (rawScores eng query)) = 0)
     = (\<forall>p \<in> set allPatterns. \<not> re_test eng p query)"
proof -
  obtain x xs where xs: "map snd (rawScores eng query) = x # xs"
    by (simp add: rawScores_def)
  have nn: "\<forall>v \<in> set (x # xs). 0 \<le> v" using rawScores_nonneg[of _ eng query] xs by metis
  have "(Max (set (x # xs)) = 0) = (\<forall>v \<in> set (x # xs). v = 0)"
  proof
    assume m: "Max (set (x # xs)) = 0"
    show "\<forall>v \<in> set (x # xs). v = 0"
    proof
      fix v assume v: "v \<in> set (x # xs)"
      then have "v \<le> Max (set (x # xs))" by (intro Max_ge) simp_all
      with m nn v show "v = 0" by force
    qed
  next
    assume z: "\<forall>v \<in> set (x # xs). v = 0"
    have "Max (set (x # xs)) \<in> set (x # xs)" by (intro Max_in) simp_all
    with z show "Max (set (x # xs)) = 0" by blast
  qed
  then show ?thesis
    using rawScores_zero[of eng query] by (simp only: xs Math_max_Max)
qed

lemma rawScores_max_nonneg: "0 \<le> Math_max (map snd (rawScores eng query))"
proof -
  obtain x xs where xs: "map snd (rawScores eng query) = x # xs"
    by (simp add: rawScores_def)
  have "Max (set (x # xs)) \<in> set (x # xs)" by (intro Max_in) simp_all
  then show ?thesis using rawScores_nonneg[of _ eng query] by (simp only: xs Math_max_Max)
qed

lemma normalized_max:
  assumes "0 < Math_max (x # xs)"
  shows "Math_max (map (\<lambda>v. v / Math_max (x # xs)) (x # xs)) = 1"
proof -
  have "Math_max (map (\<lambda>v. v / Math_max (x # xs)) (x # xs))
          = fold max (map (\<lambda>v. v / Math_max (x # xs)) xs) (x / Math_max (x # xs))"
    by simp
  also have "\<dots> = fold max xs x / Math_max (x # xs)"
    using assms by (rule Math_max_divide)
  also have "\<dots> = 1" using assms by simp
  finally show ?thesis .
qed

lemma map_snd_normalize:
  "map snd (map (\<lambda>(key, v). (key, v / (m::real))) scores) = map (\<lambda>v. v / m) (map snd scores)"
  by (induction scores) auto

text \<open>
  Claim C10. For every query, \<^const>\<open>classifyIntent\<close> returns confidence exactly 1 when at
  least one pattern of some table matches the lower-cased query, and exactly 0.5 when none
  does: the raw scores are divided by their maximum, and the confidence is the maximum of
  the normalised scores.
\<close>

theorem classifyIntent_confidence:
  "qi_confidence (classifyIntent eng query) =
     (if \<exists>p \<in> set allPatterns. re_test eng p (toLowerCase query) then 1 else 0.5)"
proof -
  let ?q = "toLowerCase query"
  let ?m = "Math_max (map snd (rawScores eng ?q))"
  have conf: "qi_confidence (classifyIntent eng query) = Math_max (map snd (calculateScores eng ?q))"
    by (simp add: classifyIntent_def Let_def)
  show ?thesis
  proof (cases "\<exists>p \<in> set allPatterns. re_test eng p ?q")
    case True
    then have "?m \<noteq> 0" using rawScores_max_zero[of eng ?q] by blast
    then have pos: "0 < ?m" using rawScores_max_nonneg[of eng ?q] by linarith
    obtain x xs where xs: "map snd (rawScores eng ?q) = x # xs"
      by (simp add: rawScores_def)
    have "calculateScores eng ?q = map (\<lambda>(key, v). (key, v / ?m)) (rawScores eng ?q)"
      using pos by (simp add: calculateScores_raw Let_def)
    then have "Math_max (map snd (calculateScores eng ?q)) = Math_max (map (\<lambda>v. v / ?m) (map snd (rawScores eng ?q)))"
      by (simp only: map_snd_normalize)
    also have "\<dots> = 1" using pos unfolding xs by (rule normalized_max)
    finally show ?thesis using True conf by simp
  next
    case False
    then have z: "?m = 0" using rawScores_max_zero[of eng ?q] by blast
    then have all0: "\<forall>v \<in> set (map snd (rawScores eng ?q)). v = 0"
      using False rawScores_zero[of eng ?q] by blast
    have "calculateScores eng ?q = AList.update Explanation 0.5 (rawScores eng ?q)"
      using z by (simp add: calculateScores_raw Let_def)
    also have "\<dots> = [(Symbol, 0), (File, 0), (Explanation, 0.5), (Howto, 0), (Route, 0), (Error, 0)]"
      using all0 by (simp add: rawScores_def)
    finally have "Math_max (map snd (calculateScores eng ?q)) = 0.5" by simp
    then show ?thesis using False conf by simp
  qed
qed

theorem classifyIntent_confidence_witness:
  "qi_confidence (classifyIntent eng0 ''function useApi'') = 1
   \<and> qi_confidence (classifyIntent eng0 ''hello'') = 0.5"
proof -
  have l: "toLowerCase ''function useApi'' = ''function useapi''" "toLowerCase ''hello'' = ''hello''"
    by code_simp+
  have a: "\<exists>p \<in> set allPatterns. re_test eng0 p (toLowerCase ''function useApi'')"
    unfolding l by (rule bexI[of _ "(Symbol, 0)"]) (simp_all add: eng0_def allPatterns_def symbolPatterns_def)
  have b: "\<not> (\<exists>p \<in> set allPatterns. re_test eng0 p (toLowerCase ''hello''))"
    unfolding l by (simp add: eng0_def)
  have "qi_confidence (classifyIntent eng0 ''function useApi'') = 1"
    using classifyIntent_confidence[of eng0 "''function useApi''"] a by (simp only: if_True)
  moreover have "qi_confidence (classifyIntent eng0 ''hello'') = 0.5"
    using classifyIntent_confidence[of eng0 "''hello''"] b by (simp only: if_False)
  ultimately show ?thesis by (rule conjI)
qed

subsection \<open>C6: cosine similarity\<close>
















subsection \<open>C8: reranking\<close>









subsection \<open>C7: the capacity of the embedding cache\<close>




















subsection \<open>C5: BM25 scores and search\<close>

lemma fold_upd_other:
  "k \<notin> f ` set cs \<Longrightarrow> fold (\<lambda>c m. m(f c \<mapsto> g c)) cs m k = m k"
  by (induction cs arbitrary: m) auto

lemma fold_upd_distinct:
  "distinct (map f cs) \<Longrightarrow> c \<in> set cs \<Longrightarrow> fold (\<lambda>c m. m(f c \<mapsto> g c)) cs m (f c) = Some (g c)"
proof (induction cs arbitrary: m)
  case Nil
  then show ?case by simp
next
  case (Cons x cs)
  show ?case
  proof (cases "c = x")
    case True
    then have "f x \<notin> f ` set cs" using Cons.prems(1) by simp
    then have "fold (\<lambda>c m. m(f c \<mapsto> g c)) cs (m(f x \<mapsto> g x)) (f x) = (m(f x \<mapsto> g x)) (f x)"
      by (rule fold_upd_other)
    also have "\<dots> = Some (g x)" by simp
    finally show ?thesis using True by (simp del: fun_upd_apply)
  next
    case False
    then show ?thesis using Cons by simp
  qed
qed

lemma fold_upd_dom:
  "fold (\<lambda>t m. m(t \<mapsto> h t)) ts m k = (if k \<in> set ts then Some (h k) else m k)"
  by (induction ts arbitrary: m) auto

lemma buildBM25Index_lookup:
  "distinct (map chunk_id chunks) \<Longrightarrow> c \<in> set chunks
     \<Longrightarrow> buildBM25Index chunks (chunk_id c) = Some (chunkIndex chunks c)"
  unfolding buildBM25Index_def by (rule fold_upd_distinct)

lemma chunkIndex_None:
  "term \<notin> set (tokenize (chunk_content c)) \<Longrightarrow> chunkIndex chunks c term = None"
  by (simp add: chunkIndex_def Let_def fold_upd_dom)

lemma sumWeights_fold_none:
  "\<forall>t \<in> set q. ci t = None
     \<Longrightarrow> fold (\<lambda>term score. score + (case ci term of None \<Rightarrow> 0 | Some w \<Rightarrow> if w = 0 then 0 else w)) q s
           = (s :: real)"
  by (induction q arbitrary: s) auto

lemma bm25Score_no_overlap:
  assumes "distinct (map chunk_id chunks)" "c \<in> set chunks"
      and "set queryTerms \<inter> set (tokenize (chunk_content c)) = {}"
  shows "bm25Score chunks queryTerms c = 0"
proof -
  have "\<forall>t \<in> set queryTerms. chunkIndex chunks c t = None"
    using assms(3) by (auto intro: chunkIndex_None)
  then have "sumWeights (chunkIndex chunks c) queryTerms = 0"
    unfolding sumWeights_def by (rule sumWeights_fold_none)
  then show ?thesis
    by (simp add: bm25Score_def buildBM25Index_lookup[OF assms(1,2)])
qed

lemma update_fresh: "k \<notin> fst ` set al \<Longrightarrow> AList.update k v al = al @ [(k, v)]"
  by (induction al) auto

lemma scores_fold:
  assumes "distinct (map f cs)" "f ` set cs \<inter> fst ` set acc = {}"
  shows "fold (\<lambda>c scores. if 0 < g c then AList.update (f c) (g c) scores else scores) cs acc
           = acc @ map (\<lambda>c. (f c, g c)) (filter (\<lambda>c. 0 < (g c :: real)) cs)"
  using assms
proof (induction cs arbitrary: acc)
  case Nil
  show ?case by simp
next
  case (Cons c cs)
  show ?case
  proof (cases "0 < g c")
    case False
    then show ?thesis using Cons by simp
  next
    case True
    have fresh: "f c \<notin> fst ` set acc" using Cons.prems(2) by auto
    have d: "distinct (map f cs)" using Cons.prems(1) by simp
    have disj: "f ` set cs \<inter> fst ` set (acc @ [(f c, g c)]) = {}"
      using Cons.prems by auto
    show ?thesis
      using True Cons.IH[OF d disj] by (simp add: update_fresh[OF fresh])
  qed
qed

lemma bm25Scores_step:
  "(case buildBM25Index chunks (chunk_id chunk) of
      None \<Rightarrow> scores
    | Some ci \<Rightarrow>
        let score = sumWeights ci queryTerms
        in if score > 0 then AList.update (chunk_id chunk) score scores else scores)
   = (if 0 < bm25Score chunks queryTerms chunk
      then AList.update (chunk_id chunk) (bm25Score chunks queryTerms chunk) scores else scores)"
  by (simp add: bm25Score_def Let_def split: option.split)

lemma bm25Scores_eq:
  assumes "distinct (map chunk_id chunks)"
  shows "bm25Scores chunks queryTerms
           = map (\<lambda>c. (chunk_id c, bm25Score chunks queryTerms c))
               (filter (\<lambda>c. 0 < bm25Score chunks queryTerms c) chunks)"
proof -
  have "bm25Scores chunks queryTerms
          = fold (\<lambda>c scores. if 0 < bm25Score chunks queryTerms c
                              then AList.update (chunk_id c) (bm25Score chunks queryTerms c) scores
                              else scores) chunks []"
    unfolding bm25Scores_def by (simp only: bm25Scores_step)
  also have "\<dots> = [] @ map (\<lambda>c. (chunk_id c, bm25Score chunks queryTerms c))
               (filter (\<lambda>c. 0 < bm25Score chunks queryTerms c) chunks)"
    by (rule scores_fold[OF assms]) simp
  finally show ?thesis by simp
qed

lemma insort_key_map:
  "insort_key f (g x) (map g xs) = map g (insort_key (\<lambda>y. f (g y)) x xs)"
  by (induction xs) auto

lemma sort_key_map: "sort_key f (map g xs) = map g (sort_key (\<lambda>y. f (g y)) xs)"
  by (induction xs) (auto simp: insort_key_map)

lemma find_distinct:
  "distinct (map f cs) \<Longrightarrow> c \<in> set cs \<Longrightarrow> find (\<lambda>c'. f c' = f c) cs = Some c"
  by (induction cs) (auto simp: rev_image_eqI)

lemma bm25Search_eq:
  assumes "distinct (map chunk_id chunks)"
  shows "bm25Search chunks queryTerms limit
           = map (\<lambda>c. mkResult c (bm25Score chunks queryTerms c))
               (take limit (sort_key (\<lambda>c. - bm25Score chunks queryTerms c)
                              (filter (\<lambda>c. 0 < bm25Score chunks queryTerms c) chunks)))"
proof -
  let ?g = "\<lambda>c. bm25Score chunks queryTerms c"
  let ?pos = "filter (\<lambda>c. 0 < ?g c) chunks"
  let ?srt = "take limit (sort_key (\<lambda>c. - ?g c) ?pos)"
  have s: "take limit (sort_key (\<lambda>(chunkId, score). - score) (bm25Scores chunks queryTerms))
             = map (\<lambda>c. (chunk_id c, ?g c)) ?srt"
    by (simp add: bm25Scores_eq[OF assms] sort_key_map take_map)
  have sub: "set ?srt \<subseteq> set chunks"
    using set_take_subset[of limit "sort_key (\<lambda>c. - ?g c) ?pos"] by auto
  have "concat (map (\<lambda>(chunkId, score).
                    case find (\<lambda>c. chunk_id c = chunkId) chunks of
                      None \<Rightarrow> []
                    | Some c \<Rightarrow> [mkResult c score]) (map (\<lambda>c. (chunk_id c, ?g c)) xs))
          = map (\<lambda>c. mkResult c (?g c)) xs" if "set xs \<subseteq> set chunks" for xs
    using that by (induction xs) (simp_all add: find_distinct[OF assms])
  from this[OF sub] show ?thesis unfolding bm25Search_def s .
qed

lemma sr_chunk_mkResult: "sr_chunk (mkResult c s) = c"
  by (simp add: mkResult_def)

lemma sr_score_mkResult: "sr_score (mkResult c s) = s"
  by (simp add: mkResult_def)

lemma sorted_take_sort_key_neg: "sorted (map f (take n (sort_key f xs)))"
proof -
  have "sorted (take n (map f (sort_key f xs)))" by (rule sorted_wrt_take) simp
  then show ?thesis by (simp add: take_map)
qed

lemma bm25Search_members:
  assumes "distinct (map chunk_id chunks)" "r \<in> set (bm25Search chunks queryTerms limit)"
  shows "sr_chunk r \<in> set chunks \<and> sr_score r = bm25Score chunks queryTerms (sr_chunk r)
         \<and> 0 < sr_score r"
proof -
  obtain c where c: "r = mkResult c (bm25Score chunks queryTerms c)"
      "c \<in> set (take limit (sort_key (\<lambda>c. - bm25Score chunks queryTerms c)
                              (filter (\<lambda>c. 0 < bm25Score chunks queryTerms c) chunks)))"
    using assms(2) unfolding bm25Search_eq[OF assms(1)] by auto
  from c(2) have "c \<in> set (filter (\<lambda>c. 0 < bm25Score chunks queryTerms c) chunks)"
    by (auto dest: in_set_takeD)
  then show ?thesis by (simp add: c(1) sr_chunk_mkResult sr_score_mkResult)
qed

lemma bm25Search_full:
  assumes "distinct (map chunk_id chunks)" "length chunks \<le> limit"
  shows "bm25Search chunks queryTerms limit
           = map (\<lambda>c. mkResult c (bm25Score chunks queryTerms c))
               (sort_key (\<lambda>c. - bm25Score chunks queryTerms c)
                  (filter (\<lambda>c. 0 < bm25Score chunks queryTerms c) chunks))"
proof -
  have "length (filter (\<lambda>c. 0 < bm25Score chunks queryTerms c) chunks) \<le> limit"
    using assms(2) length_filter_le[of "\<lambda>c. 0 < bm25Score chunks queryTerms c" chunks] by linarith
  then show ?thesis by (simp add: bm25Search_eq[OF assms(1)])
qed

lemma bm25Search_ties:
  assumes "distinct (map chunk_id chunks)"
  shows "map sr_chunk (filter (\<lambda>r. sr_score r = s) (bm25Search chunks queryTerms (length chunks)))
           = filter (\<lambda>c. bm25Score chunks queryTerms c = s \<and> 0 < s) chunks"
proof -
  let ?g = "\<lambda>c. bm25Score chunks queryTerms c"
  let ?pos = "filter (\<lambda>c. 0 < ?g c) chunks"
  have "map sr_chunk (filter (\<lambda>r. sr_score r = s) (bm25Search chunks queryTerms (length chunks)))
          = filter (\<lambda>c. ?g c = s) (sort_key (\<lambda>c. - ?g c) ?pos)"
    unfolding bm25Search_full[OF assms order_refl]
    by (simp add: filter_map o_def sr_chunk_mkResult sr_score_mkResult)
  also have "\<dots> = filter (\<lambda>c. - ?g c = - s) (sort_key (\<lambda>c. - ?g c) ?pos)" by simp
  also have "\<dots> = filter (\<lambda>c. - ?g c = - s) ?pos" by (rule sort_key_stable)
  also have "\<dots> = filter (\<lambda>c. ?g c = s \<and> 0 < s) chunks"
    by (auto intro: filter_cong)
  finally show ?thesis .
qed

text \<open>
  Claim C5, as amended. In a corpus with distinct chunk ids, a chunk that shares no term
  with the query has the summed score 0 and is excluded from the results of
  \<^const>\<open>bm25Search\<close>. The results are exactly the chunks whose summed score is positive (all of
  them when the limit is at least the size of the corpus, and the first \<open>limit\<close> of that
  list otherwise), each with its summed score, in descending order of the score, chunks
  of equal score in the order of the corpus. (A chunk that shares a term with the query
  can have a summed score of 0 or less, and is excluded as well.)
\<close>

theorem bm25Search_properties:
  assumes "distinct (map chunk_id chunks)"
  shows "(\<forall>c \<in> set chunks.
            set queryTerms \<inter> set (tokenize (chunk_content c)) = {}
            \<longrightarrow> bm25Score chunks queryTerms c = 0
                \<and> c \<notin> sr_chunk ` set (bm25Search chunks queryTerms limit))
         \<and> (\<forall>r \<in> set (bm25Search chunks queryTerms limit).
              sr_chunk r \<in> set chunks
              \<and> sr_score r = bm25Score chunks queryTerms (sr_chunk r) \<and> 0 < sr_score r)
         \<and> (length chunks \<le> limit
              \<longrightarrow> sr_chunk ` set (bm25Search chunks queryTerms limit)
                    = {c \<in> set chunks. 0 < bm25Score chunks queryTerms c})
         \<and> sorted (map (\<lambda>r. - sr_score r) (bm25Search chunks queryTerms limit))
         \<and> bm25Search chunks queryTerms limit
              = take limit (bm25Search chunks queryTerms (length chunks))
         \<and> (\<forall>s. map sr_chunk (filter (\<lambda>r. sr_score r = s)
                                 (bm25Search chunks queryTerms (length chunks)))
                  = filter (\<lambda>c. bm25Score chunks queryTerms c = s \<and> 0 < s) chunks)"
proof -
  let ?g = "\<lambda>c. bm25Score chunks queryTerms c"
  let ?R = "bm25Search chunks queryTerms limit"
  have mem: "\<forall>r \<in> set ?R. sr_chunk r \<in> set chunks \<and> sr_score r = ?g (sr_chunk r) \<and> 0 < sr_score r"
    using bm25Search_members[OF assms] by blast
  have no: "\<forall>c \<in> set chunks. set queryTerms \<inter> set (tokenize (chunk_content c)) = {}
              \<longrightarrow> ?g c = 0 \<and> c \<notin> sr_chunk ` set ?R"
  proof (intro ballI impI)
    fix c assume c: "c \<in> set chunks" "set queryTerms \<inter> set (tokenize (chunk_content c)) = {}"
    have z: "?g c = 0" using assms c by (rule bm25Score_no_overlap)
    have "c \<notin> sr_chunk ` set ?R"
    proof
      assume "c \<in> sr_chunk ` set ?R"
      then obtain r where "r \<in> set ?R" "sr_chunk r = c" by auto
      then have "0 < ?g c" using mem by force
      then show False using z by simp
    qed
    then show "?g c = 0 \<and> c \<notin> sr_chunk ` set ?R" using z by simp
  qed
  have full: "length chunks \<le> limit \<longrightarrow> sr_chunk ` set ?R = {c \<in> set chunks. 0 < ?g c}"
  proof
    assume l: "length chunks \<le> limit"
    have "sr_chunk ` set ?R = set (map sr_chunk ?R)" by simp
    also have "\<dots> = set (filter (\<lambda>c. 0 < ?g c) chunks)"
      unfolding bm25Search_full[OF assms l] by (simp add: o_def sr_chunk_mkResult)
    finally show "sr_chunk ` set ?R = {c \<in> set chunks. 0 < ?g c}" by simp
  qed
  have srt: "sorted (map (\<lambda>r. - sr_score r) ?R)"
    unfolding bm25Search_eq[OF assms]
    by (simp add: o_def sr_score_mkResult sorted_take_sort_key_neg)
  have tk: "?R = take limit (bm25Search chunks queryTerms (length chunks))"
    unfolding bm25Search_full[OF assms order_refl] bm25Search_eq[OF assms]
    by (simp add: take_map)
  show ?thesis using no mem full srt tk bm25Search_ties[OF assms] by blast
qed

lemma tokenize_examples:
  "tokenize ''useApi hook'' = [''useapi'', ''hook'']"
  "tokenize (chunk_content chunkA) = [''export'', ''function'', ''useapi'', ''return'', ''fetchjson'', ''url'']"
  "tokenize (chunk_content chunkB) = [''export'', ''const'', ''formatdate'', ''toisostring'']"
  "tokenize (chunk_content chunkC) = [''test'', ''formatdate'', ''expect'', ''formatdate'', ''tobedefined'']"
  unfolding chunkA_def chunkB_def chunkC_def chunk.simps by code_simp+

lemma chunk_ids:
  "chunk_id chunkA = ''src/hooks/useApi.ts:1-20''"
  "chunk_id chunkB = ''src/utils/format.ts:1-12''"
  "chunk_id chunkC = ''src/utils/format.test.ts:1-9''"
  by (simp_all add: chunkA_def chunkB_def chunkC_def)

theorem bm25Search_properties_witness:
  "distinct (map chunk_id [chunkA, chunkB, chunkC])
   \<and> set (tokenize ''useApi hook'') \<inter> set (tokenize (chunk_content chunkB)) = {}
   \<and> bm25Score [chunkA, chunkB, chunkC] (tokenize ''useApi hook'') chunkB = 0
   \<and> chunkB \<notin> sr_chunk ` set (bm25Search [chunkA, chunkB, chunkC] (tokenize ''useApi hook'') 20)
   \<and> length [chunkA, chunkB, chunkC] \<le> 20
   \<and> sr_chunk ` set (bm25Search [chunkA, chunkB, chunkC] (tokenize ''useApi hook'') 20)
        = {c \<in> set [chunkA, chunkB, chunkC].
             0 < bm25Score [chunkA, chunkB, chunkC] (tokenize ''useApi hook'') c}"
proof -
  have h: "distinct (map chunk_id [chunkA, chunkB, chunkC])" by (simp add: chunk_ids)
  have no: "set (tokenize ''useApi hook'') \<inter> set (tokenize (chunk_content chunkB)) = {}"
    by (simp add: tokenize_examples)
  have b: "chunkB \<in> set [chunkA, chunkB, chunkC]" by simp
  have l: "length [chunkA, chunkB, chunkC] \<le> 20" by simp
  show ?thesis
    using h no b l bm25Search_properties[OF h, of "tokenize ''useApi hook''" 20]
    by blast
qed

text \<open>In a corpus of three chunks the term \<^verbatim>\<open>useapi\<close>, found in one of them, has a
  positive weight, and the chunk that contains it has a positive summed score.\<close>

lemma bm25Score_example:
  "bm25Score [chunkA, chunkB, chunkC] (tokenize ''useApi hook'') chunkA = ln (5 / 3)"
  by (simp add: bm25Score_def buildBM25Index_def chunkIndex_def docFreq_def bump_def
        sumWeights_def tokenize_examples chunk_ids Let_def)

text \<open>The claim as stated fails in a corpus of two chunks for a term that one of them
  contains: the inverse document frequency is \<open>ln ((2 - 1 + 0.5) / (1 + 0.5)) = 0\<close>, so the
  chunk that shares the term \<^verbatim>\<open>useapi\<close> with the query has the summed score 0 and is
  excluded from the results.\<close>

theorem bm25_shared_term_zero_counterexample:
  "''useapi'' \<in> set (tokenize ''useApi hook'') \<inter> set (tokenize (chunk_content chunkA))
   \<and> bm25Score [chunkA, chunkB] (tokenize ''useApi hook'') chunkA = 0
   \<and> bm25Search [chunkA, chunkB] (tokenize ''useApi hook'') 20 = []"
  by (simp add: bm25Search_def bm25Scores_def bm25Score_def buildBM25Index_def chunkIndex_def
        docFreq_def bump_def sumWeights_def tokenize_examples chunk_ids Let_def)

subsection \<open>C3: merging the results of the expanded queries\<close>









lemma searchRelevantContext_merged:
  "searchRelevantContext search userMessage intent
     = take 6 (deduplicateResults (mergedResults search userMessage intent))"
  by (simp add: searchRelevantContext_def mergedResults_def Let_def)


lemma merged_useApi:
  "mergedResults searchTwice ''useApi hook'' intentUseApi = [mkResult chunkA 0.2, mkResult chunkA 0.9]"
  by (simp add: mergedResults_def collectResults_def enhanceQuery_def intentUseApi_def
        searchTwice_def boost_def mkResult_def)

lemma context_useApi:
  "searchRelevantContext searchTwice ''useApi hook'' intentUseApi = [mkResult chunkA 0.2]"
  by (simp add: searchRelevantContext_merged merged_useApi deduplicateResults_def mkResult_def)



subsection \<open>Shared facts about the orchestrator\<close>

lemma generateResponse_try_unfold:
  "generateResponse_try env eng search llm config userMessage intent previousMessages =
     (if \<not> hasSufficientContext (searchResults eng search userMessage intent)
      then ret (createNoResponseMessage env userMessage (searchResults eng search userMessage intent))
      else bind (callGenerate llm userMessage
                   (prepareContext (searchResults eng search userMessage intent) previousMessages))
             (\<lambda>llmResponse.
                if confidenceGate config llmResponse
                then ret (createLowConfidenceMessage env userMessage
                            (searchResults eng search userMessage intent))
                else ret (responseMessage env llmResponse
                            (searchResults eng search userMessage intent))))"
  unfolding generateResponse_try_def searchResults_def classifiedIntent_def Let_def
  by (rule refl)

lemma generateStreamingResponse_try_unfold:
  "generateStreamingResponse_try env eng search llm config userMessage intent previousMessages onChunk =
     (if \<not> hasSufficientContext (searchResults eng search userMessage intent)
      then bind (emit onChunk (msg_content (createNoResponseMessage env userMessage
                                              (searchResults eng search userMessage intent))))
             (\<lambda>_. ret (createNoResponseMessage env userMessage
                          (searchResults eng search userMessage intent)))
      else bind (streamGeneration env llm onChunk userMessage
                   (prepareContext (searchResults eng search userMessage intent) previousMessages))
             (\<lambda>(streamingContent, llmResponse).
                if confidenceGate config llmResponse
                then bind (if streamingContent = []
                           then emit onChunk (msg_content (createLowConfidenceMessage env userMessage
                                                 (searchResults eng search userMessage intent)))
                           else ret ())
                       (\<lambda>_. ret (createLowConfidenceMessage env userMessage
                                    (searchResults eng search userMessage intent)))
                else ret (responseMessage env llmResponse
                            (searchResults eng search userMessage intent))))"
  unfolding generateStreamingResponse_try_def searchResults_def classifiedIntent_def Let_def
  by (rule refl)






subsection \<open>C2: the sufficiency gate\<close>








subsection \<open>C4: the confidence gate\<close>

lemma sufficient_generateResponse:
  assumes "hasSufficientContext (searchResults eng search userMessage intent)"
      and "llm_generate llm userMessage
             (prepareContext (searchResults eng search userMessage intent) previousMessages)
           = Inr llmResponse"
  shows "snd (generateResponse env eng search llm config userMessage intent previousMessages)
           = Inr (if confidenceGate config llmResponse
                  then createLowConfidenceMessage env userMessage
                         (searchResults eng search userMessage intent)
                  else responseMessage env llmResponse
                         (searchResults eng search userMessage intent))"
  using assms
  by (simp add: generateResponse_def generateResponse_try_unfold bind_def callGenerate_def ret_def)

text \<open>The part of claim C4 that the code satisfies: a reported confidence strictly between
  0 and the threshold gives the low-confidence message, with at most three citations.\<close>

lemma confidence_gate_positive:
  assumes "hasSufficientContext (searchResults eng search userMessage intent)"
      and "llm_generate llm userMessage
             (prepareContext (searchResults eng search userMessage intent) previousMessages)
           = Inr llmResponse"
      and "llm_confidence llmResponse = Some c" "0 < c" "c < cfg_noResponseThreshold config"
  shows "snd (generateResponse env eng search llm config userMessage intent previousMessages)
           = Inr (createLowConfidenceMessage env userMessage
                    (searchResults eng search userMessage intent))
         \<and> length (msg_citations (createLowConfidenceMessage env userMessage
                                     (searchResults eng search userMessage intent))) \<le> 3"
proof -
  have "confidenceGate config llmResponse" using assms(3-5) by (simp add: confidenceGate_def)
  then show ?thesis
    using sufficient_generateResponse[OF assms(1,2)]
    by (simp add: createLowConfidenceMessage_def Let_def)
qed

lemma searchResults_useApi:
  "searchResults eng0 searchTwice ''useApi hook'' (Some intentUseApi) = [mkResult chunkA 0.2]"
  by (simp add: searchResults_def classifiedIntent_def context_useApi)

lemma sufficient_useApi:
  "hasSufficientContext (searchResults eng0 searchTwice ''useApi hook'' (Some intentUseApi))"
  by (simp add: searchResults_useApi hasSufficientContext_def mkResult_def)

text \<open>
  Claim C4 at the reported confidence 0. The question passes the sufficiency gate and the
  backend reports the confidence 0, below the threshold 0.3 of the default configuration;
  \<^const>\<open>generateResponse\<close> returns the normally assembled answer, with the confidence 0 in
  its metadata, and not the low-confidence message: the gate tests the truthiness of the
  confidence, and 0 is falsy.
\<close>

theorem confidence_zero_passes_gate:
  "hasSufficientContext (searchResults eng0 searchTwice ''useApi hook'' (Some intentUseApi))
   \<and> llm_confidence zeroResponse = Some 0
   \<and> (0 :: real) < cfg_noResponseThreshold defaultConfig
   \<and> snd (generateResponse env0 eng0 searchTwice llmZero defaultConfig ''useApi hook''
            (Some intentUseApi) None)
       = Inr (responseMessage env0 zeroResponse [mkResult chunkA 0.2])
   \<and> msg_confidence (responseMessage env0 zeroResponse [mkResult chunkA 0.2]) = Some 0
   \<and> msg_content (responseMessage env0 zeroResponse [mkResult chunkA 0.2])
       = llm_content zeroResponse
   \<and> responseMessage env0 zeroResponse [mkResult chunkA 0.2]
       \<noteq> createLowConfidenceMessage env0 ''useApi hook'' [mkResult chunkA 0.2]"
proof -
  have g: "llm_generate llmZero ''useApi hook''
             (prepareContext (searchResults eng0 searchTwice ''useApi hook'' (Some intentUseApi)) None)
           = Inr zeroResponse"
    by (simp add: llmZero_def)
  have ng: "\<not> confidenceGate defaultConfig zeroResponse"
    by (simp add: confidenceGate_def zeroResponse_def)
  have r: "snd (generateResponse env0 eng0 searchTwice llmZero defaultConfig ''useApi hook''
            (Some intentUseApi) None)
       = Inr (responseMessage env0 zeroResponse [mkResult chunkA 0.2])"
    using sufficient_generateResponse[OF sufficient_useApi g, of env0 defaultConfig] ng
    by (simp add: searchResults_useApi)
  have c: "msg_confidence (responseMessage env0 zeroResponse [mkResult chunkA 0.2]) = Some 0"
    by (simp add: responseMessage_def zeroResponse_def)
  have l: "msg_confidence (createLowConfidenceMessage env0 ''useApi hook'' [mkResult chunkA 0.2]) = Some 0.2"
    by (simp add: createLowConfidenceMessage_def Let_def)
  have ne: "responseMessage env0 zeroResponse [mkResult chunkA 0.2]
       \<noteq> createLowConfidenceMessage env0 ''useApi hook'' [mkResult chunkA 0.2]"
    using c l by (metis option.inject zero_neq_numeral divide_eq_0_iff)
  show ?thesis
    using sufficient_useApi r c ne
    by (simp add: zeroResponse_def defaultConfig_def responseMessage_def)
qed

subsection \<open>C9: the confidence of a streamed answer\<close>

lemma consume_accepted:
  "\<forall>x \<in> set fragments. sinkAccepts onChunk x
     \<Longrightarrow> snd (consume onChunk fragments acc) = Inr (acc @ concat fragments)
         \<and> (\<forall>ev \<in> set (fst (consume onChunk fragments acc)). \<not> isBackendCall ev \<and> (\<forall>p c. ev \<noteq> Generate p c))"
proof (induction fragments arbitrary: acc)
  case Nil
  show ?case by (simp add: ret_def)
next
  case (Cons x xs)
  have ok: "sinkAccepts onChunk x" using Cons.prems by simp
  obtain ev where e: "emit onChunk x = (ev, Inr ())" "\<forall>v \<in> set ev. \<not> isBackendCall v \<and> (\<forall>p c. v \<noteq> Generate p c)"
    using ok by (auto simp: emit_def sinkAccepts_def isBackendCall_def split: option.splits)
  have IH: "snd (consume onChunk xs (acc @ x)) = Inr ((acc @ x) @ concat xs)
         \<and> (\<forall>ev \<in> set (fst (consume onChunk xs (acc @ x))). \<not> isBackendCall ev \<and> (\<forall>p c. ev \<noteq> Generate p c))"
    using Cons.prems by (intro Cons.IH) simp
  obtain ev' r where c: "consume onChunk xs (acc @ x) = (ev', r)" by (cases "consume onChunk xs (acc @ x)")
  show ?case using e IH unfolding c by (auto simp: bind_def c)
qed

lemma streamGeneration_stream:
  assumes "llm_generateStream llm = Some generateStream"
      and "generateStream userMessage context = Inr (fragments, None)"
      and "\<forall>x \<in> set fragments. sinkAccepts onChunk x"
  shows "snd (streamGeneration env llm onChunk userMessage context)
           = Inr (concat fragments, streamedResponse env (concat fragments))
         \<and> (\<forall>ev \<in> set (fst (streamGeneration env llm onChunk userMessage context)).
               \<forall>p c. ev \<noteq> Generate p c)"
proof -
  obtain ev where c: "consume onChunk fragments [] = (ev, Inr (concat fragments))"
      "\<forall>v \<in> set ev. \<forall>p c. v \<noteq> Generate p c"
    using consume_accepted[OF assms(3), of "[]"]
    by (cases "consume onChunk fragments []") auto
  show ?thesis
    using c by (auto simp: streamGeneration_def assms(1,2) bind_def ret_def)
qed

text \<open>
  Claim C9. In \<^const>\<open>generateStreamingResponse\<close>, when the provider implements
  \<^verbatim>\<open>generateStream\<close>, the sufficiency gate passes and the stream is consumed to its end
  (it does not throw and the sink accepts every fragment), the terminal message carries
  the accumulated text, the confidence exactly 0.8 and \<open>ceil (length / 4)\<close> tokens, whatever
  \<^verbatim>\<open>generate\<close> would report (it is not called). Under a threshold of at most 0.8, so under
  the default 0.3, the low-confidence gate therefore does not trigger on this path.
\<close>

theorem streaming_confidence_fixed:
  assumes "llm_generateStream llm = Some generateStream"
      and "hasSufficientContext (searchResults eng search userMessage intent)"
      and "generateStream userMessage
             (prepareContext (searchResults eng search userMessage intent) previousMessages)
           = Inr (fragments, None)"
      and "\<forall>x \<in> set fragments. sinkAccepts onChunk x"
      and "cfg_noResponseThreshold config \<le> 0.8"
  shows "snd (generateStreamingResponse env eng search llm config userMessage intent
                previousMessages onChunk)
           = Inr (responseMessage env (streamedResponse env (concat fragments))
                    (searchResults eng search userMessage intent))
         \<and> msg_content (responseMessage env (streamedResponse env (concat fragments))
                           (searchResults eng search userMessage intent)) = concat fragments
         \<and> msg_confidence (responseMessage env (streamedResponse env (concat fragments))
                              (searchResults eng search userMessage intent)) = Some 0.8
         \<and> msg_tokensUsed (responseMessage env (streamedResponse env (concat fragments))
                              (searchResults eng search userMessage intent))
             = Some ((length (concat fragments) + 3) div 4)
         \<and> responseMessage env (streamedResponse env (concat fragments))
              (searchResults eng search userMessage intent)
             \<noteq> createLowConfidenceMessage env userMessage
                  (searchResults eng search userMessage intent)
         \<and> (\<forall>ev \<in> set (fst (generateStreamingResponse env eng search llm config userMessage
                                 intent previousMessages onChunk)).
               \<forall>p c. ev \<noteq> Generate p c)"
proof -
  let ?rs = "searchResults eng search userMessage intent"
  let ?ctx = "prepareContext ?rs previousMessages"
  let ?m = "responseMessage env (streamedResponse env (concat fragments)) ?rs"
  obtain ev where sg: "streamGeneration env llm onChunk userMessage ?ctx
                         = (ev, Inr (concat fragments, streamedResponse env (concat fragments)))"
      and evs: "\<forall>v \<in> set ev. \<forall>p c. v \<noteq> Generate p c"
    using streamGeneration_stream[OF assms(1,3,4), of env]
    by (cases "streamGeneration env llm onChunk userMessage ?ctx") auto
  have ng: "\<not> confidenceGate config (streamedResponse env (concat fragments))"
    using assms(5) by (simp add: confidenceGate_def streamedResponse_def)
  have t: "generateStreamingResponse_try env eng search llm config userMessage intent
             previousMessages onChunk = (ev, Inr ?m)"
    using assms(2) ng by (simp add: generateStreamingResponse_try_unfold sg bind_def ret_def)
  have r: "generateStreamingResponse env eng search llm config userMessage intent
             previousMessages onChunk = (ev, Inr ?m)"
    by (simp add: generateStreamingResponse_def t)
  have c: "msg_content ?m = concat fragments" "msg_confidence ?m = Some 0.8"
      "msg_tokensUsed ?m = Some ((length (concat fragments) + 3) div 4)"
    by (simp_all add: responseMessage_def streamedResponse_def)
  have l: "msg_confidence (createLowConfidenceMessage env userMessage ?rs) = Some 0.2"
    by (simp add: createLowConfidenceMessage_def Let_def)
  have ne: "?m \<noteq> createLowConfidenceMessage env userMessage ?rs"
  proof
    assume "?m = createLowConfidenceMessage env userMessage ?rs"
    then have "msg_confidence ?m = msg_confidence (createLowConfidenceMessage env userMessage ?rs)"
      by simp
    then show False unfolding c(2) l by simp
  qed
  show ?thesis using r c ne evs by simp
qed

lemma sufficient_useApi_streams:
  "hasSufficientContext (searchResults eng0 searchTwice ''useApi hook'' (Some intentUseApi))"
  by (simp add: searchResults_def classifiedIntent_def context_useApi hasSufficientContext_def
        mkResult_def)

theorem streaming_confidence_fixed_witness:
  "llm_generateStream llmStreams = Some (\<lambda>prompt context. Inr ([''The hook '', ''is useApi.''], None))
   \<and> hasSufficientContext (searchResults eng0 searchTwice ''useApi hook'' (Some intentUseApi))
   \<and> sinkAccepts None ''The hook '' \<and> sinkAccepts None ''is useApi.''
   \<and> cfg_noResponseThreshold defaultConfig \<le> 0.8
   \<and> (\<exists>m. snd (generateStreamingResponse env0 eng0 searchTwice llmStreams defaultConfig
                  ''useApi hook'' (Some intentUseApi) None None) = Inr m
          \<and> msg_content m = ''The hook is useApi.''
          \<and> msg_confidence m = Some 0.8 \<and> msg_tokensUsed m = Some 5)"
proof -
  have h1: "llm_generateStream llmStreams = Some (\<lambda>prompt context. Inr ([''The hook '', ''is useApi.''], None))"
    by (simp add: llmStreams_def)
  have h3: "(\<lambda>prompt context. Inr ([''The hook '', ''is useApi.''], None :: exn option) :: exn + stream) ''useApi hook''
             (prepareContext (searchResults eng0 searchTwice ''useApi hook'' (Some intentUseApi)) None)
           = Inr ([''The hook '', ''is useApi.''], None)"
    by simp
  have h4: "\<forall>x \<in> set [''The hook '', ''is useApi.'']. sinkAccepts None x"
    by (simp add: sinkAccepts_def)
  have h5: "cfg_noResponseThreshold defaultConfig \<le> 0.8" by (simp add: defaultConfig_def)
  show ?thesis
    using h1 h4 h5 sufficient_useApi_streams
      streaming_confidence_fixed[OF h1 sufficient_useApi_streams h3 h4 h5, of env0]
    by simp
qed

subsection \<open>C1: exceptions never cross the orchestrator\<close>











end
